theory Spec2Isabelle
  imports
    Main
    "HOL-Library.AList"
    "HOL-Library.Char_ord"
    "HOL-Library.List_Lexorder"
    "HOL-Library.Product_Lexorder"
begin

section \<open>The key store (app/services/storage.py)\<close>

text \<open>
  \<^verbatim>\<open>Storage._data\<close> is a Python dict with the two mappings \<^verbatim>\<open>keys\<close> and \<^verbatim>\<open>users\<close>.
  A Python dict keeps its entries in insertion order, assignment to a present key
  replaces the value in place, assignment to an absent key appends, and \<^verbatim>\<open>del\<close>
  removes the entry.  An association list with \<^const>\<open>map_of\<close>, \<^const>\<open>AList.update\<close>
  and \<^const>\<open>AList.delete\<close> has exactly this behaviour, and keeps the iteration order that
  \<^verbatim>\<open>get_all_keys\<close> depends on.

  The value stored under a token is the dict written by \<^verbatim>\<open>generate_key\<close>; it is the
  record \<open>key_data\<close>.  The dataclass \<^verbatim>\<open>AccessKey\<close> has the same four attributes and the
  token, so it is the record extension \<open>AccessKey\<close>.  The value stored under
  \<^verbatim>\<open>str(user_id)\<close> is the record \<open>user\<close>.

  \<^verbatim>\<open>datetime.now().isoformat()\<close> is an input of the model (the argument \<open>now\<close>).
  \<^verbatim>\<open>_save\<close> writes the JSON file and swallows every I/O error: it changes neither
  \<^verbatim>\<open>_data\<close> nor a return value, and the file is not part of the model.
\<close>

record key_data =
  created_at :: string
  activated_by :: "int option"
  activated_by_username :: "string option"
  activated_at :: "string option"

record AccessKey = key_data +
  key :: string

record user =
  user_id :: int
  username :: "string option"
  key_used :: string
  user_activated_at :: string

record storage =
  admin_id :: int
  keys :: "(string \<times> key_data) list"
  users :: "(string \<times> user) list"

text \<open>Python's \<^verbatim>\<open>str\<close> on an integer: decimal digits, with a leading minus sign.\<close>

definition digit_char :: "nat \<Rightarrow> char" where
  "digit_char d = ''0123456789'' ! d"

fun str_nat :: "nat \<Rightarrow> string" where
  "str_nat n = (if n < 10 then [digit_char n] else str_nat (n div 10) @ [digit_char (n mod 10)])"

declare str_nat.simps [simp del]

definition str_int :: "int \<Rightarrow> string" where
  "str_int i = (if i < 0 then CHR ''-'' # str_nat (nat (- i)) else str_nat (nat i))"

text \<open>\<^verbatim>\<open>k in d\<close> for a dict.\<close>

definition dict_in :: "'k \<Rightarrow> ('k \<times> 'v) list \<Rightarrow> bool" where
  "dict_in k d = (map_of d k \<noteq> None)"

text \<open>
  The truth value Python gives an \<^verbatim>\<open>Optional[int]\<close> in a condition: \<^verbatim>\<open>None\<close> and
  \<^verbatim>\<open>0\<close> are false, every other integer is true.
\<close>

fun truthy_opt_int :: "int option \<Rightarrow> bool" where
  "truthy_opt_int None = False"
| "truthy_opt_int (Some n) = (n \<noteq> 0)"

definition empty_storage :: "int \<Rightarrow> storage" where
  "empty_storage adm = \<lparr>admin_id = adm, keys = [], users = []\<rparr>"

subsection \<open>activate\_key, delete\_key, is\_authorized, is\_admin\<close>

definition activate_key ::
  "storage \<Rightarrow> string \<Rightarrow> int \<Rightarrow> string option \<Rightarrow> string \<Rightarrow> bool \<times> storage" where
  "activate_key s k uid uname now =
     (case map_of (keys s) k of
        None \<Rightarrow> (False, s)
      | Some kd \<Rightarrow>
          if activated_by kd \<noteq> None then (False, s)
          else if dict_in (str_int uid) (users s) then (False, s)
          else (True,
            s\<lparr>keys := AList.update k
                   (kd\<lparr>activated_by := Some uid,
                       activated_by_username := uname,
                       activated_at := Some now\<rparr>) (keys s),
              users := AList.update (str_int uid)
                   \<lparr>user_id = uid, username = uname, key_used = k,
                    user_activated_at = now\<rparr> (users s)\<rparr>))"

definition delete_key :: "storage \<Rightarrow> string \<Rightarrow> bool \<times> storage" where
  "delete_key s k =
     (case map_of (keys s) k of
        None \<Rightarrow> (False, s)
      | Some kd \<Rightarrow>
          (True,
           s\<lparr>users :=
                (if truthy_opt_int (activated_by kd)
                 then (if dict_in (str_int (the (activated_by kd))) (users s)
                       then AList.delete (str_int (the (activated_by kd))) (users s)
                       else users s)
                 else users s),
             keys := AList.delete k (keys s)\<rparr>))"

definition is_authorized :: "storage \<Rightarrow> int \<Rightarrow> bool" where
  "is_authorized s uid = (if uid = admin_id s then True else dict_in (str_int uid) (users s))"

definition is_admin :: "storage \<Rightarrow> int \<Rightarrow> bool" where
  "is_admin s uid = (uid = admin_id s)"

subsection \<open>generate\_key\<close>

text \<open>
  \<^verbatim>\<open>secrets.choice(seq)\<close> returns \<^verbatim>\<open>seq[randbelow(len(seq))]\<close>.  The random
  numbers are an input of the model: a list of raw draws, one consumed by each call and
  reduced into the range of the sequence.  One round of the \<^verbatim>\<open>while True\<close> loop draws
  twelve characters (three parts of four) and joins the parts with a hyphen.  The loop
  ends at the first round whose token is not stored; on a list of draws that ends before
  such a round the model returns \<open>None\<close>: the loop has not ended on these draws.
\<close>

definition chars :: string where
  "chars = ''ABCDEFGHIJKLMNOPQRSTUVWXYZ0123456789''"

definition secrets_choice :: "string \<Rightarrow> nat \<Rightarrow> char" where
  "secrets_choice seq r = seq ! (r mod length seq)"

fun join :: "string \<Rightarrow> string list \<Rightarrow> string" where
  "join sep [] = []"
| "join sep [x] = x"
| "join sep (x # y # ys) = x @ sep @ join sep (y # ys)"

definition draw_key :: "nat list \<Rightarrow> string" where
  "draw_key rs =
     join ''-'' (map (\<lambda>i. map (secrets_choice chars) (take 4 (drop (4 * i) rs))) [0..<3])"

function generate_key_loop :: "(string \<times> key_data) list \<Rightarrow> nat list \<Rightarrow> string option" where
  "generate_key_loop ks rs =
     (if length rs < 12 then None
      else if \<not> dict_in (draw_key (take 12 rs)) ks then Some (draw_key (take 12 rs))
      else generate_key_loop ks (drop 12 rs))"
  by pat_completeness auto
termination
  by (relation "measure (\<lambda>(ks, rs). length rs)") auto

declare generate_key_loop.simps [simp del]

definition new_key_data :: "string \<Rightarrow> key_data" where
  "new_key_data now =
     \<lparr>created_at = now, activated_by = None, activated_by_username = None,
      activated_at = None\<rparr>"

definition generate_key :: "storage \<Rightarrow> string \<Rightarrow> nat list \<Rightarrow> (string \<times> storage) option" where
  "generate_key s now rs =
     (case generate_key_loop (keys s) rs of
        None \<Rightarrow> None
      | Some k \<Rightarrow> Some (k, s\<lparr>keys := AList.update k (new_key_data now) (keys s)\<rparr>))"

subsection \<open>get\_all\_keys and the two partitions\<close>

text \<open>
  \<^verbatim>\<open>list.sort(key=f, reverse=True)\<close> is stable: CPython reverses the list, sorts it
  ascending with its stable sort, and reverses the result.  The sort key is the pair
  \<^verbatim>\<open>(is_used, created_at)\<close>, compared lexicographically, \<^verbatim>\<open>False\<close> below \<^verbatim>\<open>True\<close>
  and strings by their characters.
\<close>

definition is_used :: "'a key_data_scheme \<Rightarrow> bool" where
  "is_used x = (activated_by x \<noteq> None)"

definition sort_reverse :: "('a \<Rightarrow> 'k::linorder) \<Rightarrow> 'a list \<Rightarrow> 'a list" where
  "sort_reverse f xs = rev (sort_key f (rev xs))"

definition to_AccessKey :: "string \<times> key_data \<Rightarrow> AccessKey" where
  "to_AccessKey p =
     \<lparr>created_at = created_at (snd p), activated_by = activated_by (snd p),
      activated_by_username = activated_by_username (snd p),
      activated_at = activated_at (snd p), key = fst p\<rparr>"

definition get_all_keys :: "storage \<Rightarrow> AccessKey list" where
  "get_all_keys s = sort_reverse (\<lambda>x. (is_used x, created_at x)) (map to_AccessKey (keys s))"

definition get_unused_keys :: "storage \<Rightarrow> AccessKey list" where
  "get_unused_keys s = filter (\<lambda>k. \<not> is_used k) (get_all_keys s)"

definition get_used_keys :: "storage \<Rightarrow> AccessKey list" where
  "get_used_keys s = filter (\<lambda>k. is_used k) (get_all_keys s)"

definition get_user_count :: "storage \<Rightarrow> nat" where
  "get_user_count s = length (users s)"

subsection \<open>Sequences of store operations\<close>

text \<open>
  A run of the store is a list of calls, each with the inputs it reads from its
  environment (the clock, the random draws).  A call of \<^verbatim>\<open>generate_key\<close> whose loop
  does not end stops the run.
\<close>

datatype store_op =
    GenerateKey string "nat list"
  | ActivateKey string int "string option" string
  | DeleteKey string

fun apply_op :: "storage \<Rightarrow> store_op \<Rightarrow> storage option" where
  "apply_op s (GenerateKey now rs) = map_option snd (generate_key s now rs)"
| "apply_op s (ActivateKey k uid uname now) = Some (snd (activate_key s k uid uname now))"
| "apply_op s (DeleteKey k) = Some (snd (delete_key s k))"

fun run_ops :: "storage \<Rightarrow> store_op list \<Rightarrow> storage option" where
  "run_ops s [] = Some s"
| "run_ops s (x # xs) = (case apply_op s x of None \<Rightarrow> None | Some s' \<Rightarrow> run_ops s' xs)"

subsection \<open>The key prompt (app/handlers/homework.py, process\_key\_input)\<close>

text \<open>
  The handler trims and upper-cases the text of the message and passes the result to
  \<^verbatim>\<open>activate_key\<close>; the display name is \<^verbatim>\<open>@username\<close> when the sender has a
  username and the full name otherwise.  Text is modelled as ASCII: on it
  \<^verbatim>\<open>str.upper\<close> maps the letters a to z to A to Z, and \<^verbatim>\<open>str.strip\<close> removes the
  white space characters 9 to 13 and 28 to 32 at both ends.
\<close>

definition upper_char :: "char \<Rightarrow> char" where
  "upper_char c =
     (case map_of (zip ''abcdefghijklmnopqrstuvwxyz'' ''ABCDEFGHIJKLMNOPQRSTUVWXYZ'') c of
        None \<Rightarrow> c
      | Some u \<Rightarrow> u)"

definition upper :: "string \<Rightarrow> string" where
  "upper t = map upper_char t"

definition isspace :: "char \<Rightarrow> bool" where
  "isspace c = ((9 \<le> (of_char c :: nat) \<and> (of_char c :: nat) \<le> 13)
              \<or> (28 \<le> (of_char c :: nat) \<and> (of_char c :: nat) \<le> 32))"

definition strip :: "string \<Rightarrow> string" where
  "strip t = rev (dropWhile isspace (rev (dropWhile isspace t)))"

datatype reply = KeyActivated | KeyRejected

definition display_name :: "string option \<Rightarrow> string \<Rightarrow> string" where
  "display_name uname full_name =
     (case uname of
        None \<Rightarrow> full_name
      | Some u \<Rightarrow> if u \<noteq> [] then CHR ''@'' # u else full_name)"

definition process_key_input ::
  "storage \<Rightarrow> string \<Rightarrow> int \<Rightarrow> string option \<Rightarrow> string \<Rightarrow> string \<Rightarrow> reply \<times> storage" where
  "process_key_input s text uid uname full_name now =
     (case activate_key s (upper (strip text)) uid (Some (display_name uname full_name)) now of
        (True, s') \<Rightarrow> (KeyActivated, s')
      | (False, s') \<Rightarrow> (KeyRejected, s'))"

text \<open>
  Two tokens differ only in letter case when they have the same length and at every
  position the characters are equal or one is the upper-case form of the other.
\<close>

definition differs_only_in_case :: "string \<Rightarrow> string \<Rightarrow> bool" where
  "differs_only_in_case a b =
     list_all2 (\<lambda>x y. x = y \<or> upper_char x = y \<or> x = upper_char y) a b"

subsection \<open>The token format\<close>

text \<open>
  Three groups of four characters, each an upper-case letter or a digit, separated by
  single hyphens.
\<close>

definition is_upper_or_digit :: "char \<Rightarrow> bool" where
  "is_upper_or_digit c =
     ((CHR ''A'' \<le> c \<and> c \<le> CHR ''Z'') \<or> (CHR ''0'' \<le> c \<and> c \<le> CHR ''9''))"

definition is_group :: "string \<Rightarrow> bool" where
  "is_group g = (length g = 4 \<and> list_all is_upper_or_digit g)"

definition key_format :: "string \<Rightarrow> bool" where
  "key_format t =
     (length t = 14 \<and> is_group (take 4 t) \<and> t ! 4 = CHR ''-'' \<and>
      is_group (take 4 (drop 5 t)) \<and> t ! 9 = CHR ''-'' \<and> is_group (drop 10 t))"

section \<open>The homework client (app/services/authedu_client.py)\<close>

subsection \<open>JSON values and the Python operations on them\<close>

text \<open>
  \<^verbatim>\<open>response.json()\<close> gives Python values: \<^verbatim>\<open>None\<close>, booleans, integers, strings,
  lists and dicts (floating point numbers are left out of the model).  A string is the
  list of its UTF-8 bytes, and the two non-ASCII literals of the source are written out
  as bytes.  The operations are those the parser applies: the truth value of a value,
  \<^verbatim>\<open>a or b\<close>, \<^verbatim>\<open>dict.get\<close> with and without a default, and iteration by
  \<^verbatim>\<open>for\<close>, which raises \<^verbatim>\<open>TypeError\<close> on \<^verbatim>\<open>None\<close>, a boolean or an integer, runs
  over the keys of a dict and over the characters of a string.
\<close>

datatype json =
    JNull
  | JBool bool
  | JInt int
  | JString string
  | JArray "json list"
  | JObject "(string \<times> json) list"

fun truthy :: "json \<Rightarrow> bool" where
  "truthy JNull = False"
| "truthy (JBool b) = b"
| "truthy (JInt n) = (n \<noteq> 0)"
| "truthy (JString s) = (s \<noteq> [])"
| "truthy (JArray xs) = (xs \<noteq> [])"
| "truthy (JObject kvs) = (kvs \<noteq> [])"

definition py_or :: "json \<Rightarrow> json \<Rightarrow> json" where
  "py_or a b = (if truthy a then a else b)"

definition get_default :: "(string \<times> json) list \<Rightarrow> string \<Rightarrow> json \<Rightarrow> json" where
  "get_default d k dflt = (case map_of d k of None \<Rightarrow> dflt | Some v \<Rightarrow> v)"

definition dict_get :: "(string \<times> json) list \<Rightarrow> string \<Rightarrow> json" where
  "dict_get d k = get_default d k JNull"

type_synonym date = "nat \<times> nat \<times> nat"

datatype net_error = TimeoutException string | RequestError string

datatype api_message =
    TokenExpired401
  | Forbidden403
  | HttpError int
  | ConnectFailed int "net_error option"

text \<open>
  The exceptions that leave the client.  \<open>AutheduAPIError\<close> carries its message (one of
  the four texts of the source, with the values formatted into it) and its
  \<^verbatim>\<open>status_code\<close>.  \<open>SortOutsideModel\<close> is not a Python exception: it marks the lists
  of records whose final sort the model does not follow (see \<open>sort_items\<close>).
\<close>

datatype py_error =
    AutheduAPIError api_message "int option"
  | TypeError
  | JSONDecodeError
  | OtherException string
  | SortOutsideModel

fun py_iter :: "json \<Rightarrow> py_error + json list" where
  "py_iter (JArray xs) = Inr xs"
| "py_iter (JObject kvs) = Inr (map (\<lambda>p. JString (fst p)) kvs)"
| "py_iter (JString s) = Inr (map (\<lambda>c. JString [c]) s)"
| "py_iter JNull = Inl TypeError"
| "py_iter (JBool b) = Inl TypeError"
| "py_iter (JInt n) = Inl TypeError"

text \<open>
  Two functions of the Python library are parameters of the model: \<^verbatim>\<open>str\<close> on a value
  that is not a string (on a string it is the identity), and \<^verbatim>\<open>date.fromisoformat\<close>
  on a string, \<open>None\<close> standing for its \<^verbatim>\<open>ValueError\<close> (the strings it accepts depend
  on the Python version).  On an argument that is not a string
  \<^verbatim>\<open>date.fromisoformat\<close> raises \<^verbatim>\<open>TypeError\<close> in every version; that is part of the
  model.
\<close>

record pylib =
  py_str :: "json \<Rightarrow> string"
  fromisoformat :: "string \<Rightarrow> date option"

definition str_json :: "pylib \<Rightarrow> json \<Rightarrow> string" where
  "str_json lib v = (case v of JString s \<Rightarrow> s | _ \<Rightarrow> py_str lib v)"

subsection \<open>\_parse\_homeworks\<close>

record MaterialItem =
  title :: json
  url :: json

record HomeworkItem =
  subject :: json
  homework_date :: date
  homework_text :: string
  is_done :: json
  materials :: "MaterialItem list"

definition default_title :: string where
  "default_title = [CHR 0xD0, CHR 0xA4, CHR 0xD0, CHR 0xB0, CHR 0xD0, CHR 0xB9, CHR 0xD0, CHR 0xBB]"

definition default_subject :: string where
  "default_subject =
     [CHR 0xD0, CHR 0x91, CHR 0xD0, CHR 0xB5, CHR 0xD0, CHR 0xB7, CHR 0x20,
      CHR 0xD0, CHR 0xBF, CHR 0xD1, CHR 0x80, CHR 0xD0, CHR 0xB5, CHR 0xD0, CHR 0xB4,
      CHR 0xD0, CHR 0xBC, CHR 0xD0, CHR 0xB5, CHR 0xD1, CHR 0x82, CHR 0xD0, CHR 0xB0]"

text \<open>The inner loop over \<^verbatim>\<open>urls\<close>: the first dict with a true \<^verbatim>\<open>url\<close>.\<close>

fun first_url :: "json list \<Rightarrow> json option" where
  "first_url [] = None"
| "first_url (JObject d # us) =
     (if truthy (dict_get d ''url'') then Some (dict_get d ''url'') else first_url us)"
| "first_url (u # us) = first_url us"

text \<open>The loop over \<^verbatim>\<open>materials_raw\<close>.\<close>

fun parse_materials :: "json list \<Rightarrow> py_error + MaterialItem list" where
  "parse_materials [] = Inr []"
| "parse_materials (JObject d # ms) =
     (case py_iter (py_or (dict_get d ''urls'') (JArray [])) of
        Inl e \<Rightarrow> Inl e
      | Inr urls \<Rightarrow>
          (case parse_materials ms of
             Inl e \<Rightarrow> Inl e
           | Inr rest \<Rightarrow>
               Inr ((case first_url urls of
                       None \<Rightarrow> []
                     | Some u \<Rightarrow>
                         [\<lparr>title = get_default d ''title'' (JString default_title), url = u\<rparr>])
                    @ rest)))"
| "parse_materials (m # ms) = parse_materials ms"

text \<open>
  One round of the loop over the payload: \<open>Inr None\<close> is \<^verbatim>\<open>continue\<close>, \<open>Inr (Some x)\<close>
  is the record appended, \<open>Inl e\<close> is an exception that leaves the function.
\<close>

definition parse_homework :: "pylib \<Rightarrow> json \<Rightarrow> py_error + HomeworkItem option" where
  "parse_homework lib hw =
     (case hw of
        JObject d \<Rightarrow>
          (let text =
                 strip (str_json lib
                   (py_or (py_or (dict_get d ''homework'') (dict_get d ''description''))
                      (JString [])))
           in if text = [] then Inr None
              else
                (case get_default d ''date'' (JString []) of
                   JString date_str \<Rightarrow>
                     (case fromisoformat lib date_str of
                        None \<Rightarrow> Inr None
                      | Some d' \<Rightarrow>
                          (case py_iter (py_or (dict_get d ''materials'') (JArray [])) of
                             Inl e \<Rightarrow> Inl e
                           | Inr materials_raw \<Rightarrow>
                               (case parse_materials materials_raw of
                                  Inl e \<Rightarrow> Inl e
                                | Inr ms \<Rightarrow>
                                    Inr (Some
                                      \<lparr>subject =
                                         get_default d ''subject_name'' (JString default_subject),
                                       homework_date = d',
                                       homework_text = text,
                                       is_done = get_default d ''is_done'' (JBool False),
                                       materials = ms\<rparr>))))
                 | _ \<Rightarrow> Inl TypeError))
      | _ \<Rightarrow> Inr None)"

fun parse_items :: "pylib \<Rightarrow> json list \<Rightarrow> py_error + HomeworkItem list" where
  "parse_items lib [] = Inr []"
| "parse_items lib (hw # hws) =
     (case parse_homework lib hw of
        Inl e \<Rightarrow> Inl e
      | Inr r \<Rightarrow>
          (case parse_items lib hws of
             Inl e \<Rightarrow> Inl e
           | Inr items \<Rightarrow> Inr ((case r of None \<Rightarrow> [] | Some x \<Rightarrow> [x]) @ items)))"

text \<open>
  \<^verbatim>\<open>items.sort(key=lambda x: (x.homework_date, x.subject))\<close>.  A list of at most one
  record is returned as it is.  When every subject is a string the keys are compared
  without an exception and the result is the stable ascending sort.  When some subject
  is not a string, the comparison of two keys with equal dates may raise
  \<^verbatim>\<open>TypeError\<close>, and whether it does depends on the pairs the sort compares: the model
  does not follow the sort there.
\<close>

fun is_JString :: "json \<Rightarrow> bool" where
  "is_JString (JString s) = True"
| "is_JString v = False"

fun string_of :: "json \<Rightarrow> string" where
  "string_of (JString s) = s"
| "string_of v = []"

definition sort_items :: "HomeworkItem list \<Rightarrow> py_error + HomeworkItem list" where
  "sort_items items =
     (if length items \<le> 1 then Inr items
      else if list_all (\<lambda>x. is_JString (subject x)) items
      then Inr (sort_key (\<lambda>x. (homework_date x, string_of (subject x))) items)
      else Inl SortOutsideModel)"

definition unwrap :: "json \<Rightarrow> json" where
  "unwrap data =
     (case data of
        JObject d \<Rightarrow>
          py_or (py_or (py_or (dict_get d ''payload'') (dict_get d ''response''))
                   (dict_get d ''data''))
            (JArray [])
      | _ \<Rightarrow> data)"

definition parse_homeworks :: "pylib \<Rightarrow> json \<Rightarrow> py_error + HomeworkItem list" where
  "parse_homeworks lib data =
     (case unwrap data of
        JArray hws \<Rightarrow>
          (case parse_items lib hws of
             Inl e \<Rightarrow> Inl e
           | Inr items \<Rightarrow> sort_items items)
      | _ \<Rightarrow> Inr [])"

subsection \<open>fetch\_homeworks\<close>

text \<open>
  The server is an input of the model: the outcome of the request of each attempt.  A
  request ends with a response (its status code and its body as \<^verbatim>\<open>response.json()\<close>
  reads it, \<open>None\<close> for a body that is not JSON), with a network error
  (\<^verbatim>\<open>httpx.TimeoutException\<close> or another \<^verbatim>\<open>httpx.RequestError\<close>, both caught by the
  loop), or with any other exception, which the loop does not catch.  The requests sent
  and the waits of \<^verbatim>\<open>asyncio.sleep\<close> are recorded in order.
\<close>

datatype outcome =
    Response int "json option"
  | NetFail net_error
  | Raises string

datatype event = Request nat | Sleep nat

type_synonym fetch_result = "(py_error + HomeworkItem list) \<times> event list"

fun fetch_loop ::
  "pylib \<Rightarrow> (nat \<Rightarrow> outcome) \<Rightarrow> int \<Rightarrow> nat list \<Rightarrow> net_error option \<Rightarrow> event list
     \<Rightarrow> fetch_result" where
  "fetch_loop lib server max_retries [] last_error tr =
     (Inl (AutheduAPIError (ConnectFailed max_retries last_error) None), tr)"
| "fetch_loop lib server max_retries (attempt # rest) last_error tr =
     (case server attempt of
        Response status body \<Rightarrow>
          if status = 401
          then (Inl (AutheduAPIError TokenExpired401 (Some 401)), tr @ [Request attempt])
          else if status = 403
          then (Inl (AutheduAPIError Forbidden403 (Some 403)), tr @ [Request attempt])
          else if status \<ge> 400
          then (Inl (AutheduAPIError (HttpError status) (Some status)), tr @ [Request attempt])
          else (case body of
                  None \<Rightarrow> (Inl JSONDecodeError, tr @ [Request attempt])
                | Some data \<Rightarrow> (parse_homeworks lib data, tr @ [Request attempt]))
      | Raises msg \<Rightarrow> (Inl (OtherException msg), tr @ [Request attempt])
      | NetFail e \<Rightarrow>
          fetch_loop lib server max_retries rest (Some e)
            (tr @ [Request attempt]
                @ (if int attempt < max_retries - 1 then [Sleep (2 ^ attempt)] else [])))"

definition fetch_homeworks :: "pylib \<Rightarrow> (nat \<Rightarrow> outcome) \<Rightarrow> int \<Rightarrow> fetch_result" where
  "fetch_homeworks lib server max_retries =
     fetch_loop lib server max_retries [0..<nat max_retries] None []"

definition requests_of :: "event list \<Rightarrow> nat list" where
  "requests_of tr = concat (map (\<lambda>ev. case ev of Request n \<Rightarrow> [n] | Sleep n \<Rightarrow> []) tr)"

text \<open>
  The events of \<open>k\<close> failed attempts, numbered from \<open>a\<close>: each request, and after it the
  wait of \<open>2 ^ attempt\<close> seconds unless the attempt is the last one allowed.
\<close>

definition failed_attempts :: "int \<Rightarrow> nat \<Rightarrow> nat \<Rightarrow> event list" where
  "failed_attempts max_retries a k =
     concat (map (\<lambda>i. Request i # (if int i < max_retries - 1 then [Sleep (2 ^ i)] else []))
               [a..<k])"

subsection \<open>A date parser for the examples\<close>

text \<open>
  \<^verbatim>\<open>date.fromisoformat\<close> as every Python version from 3.7 reads the form
  \<^verbatim>\<open>YYYY-MM-DD\<close>: four, two and two decimal digits, a year from 1, a month from 1 to 12
  and a day of that month.
\<close>

definition digit_val :: "char \<Rightarrow> nat option" where
  "digit_val c = map_of (zip ''0123456789'' [0..<10]) c"

fun number :: "string \<Rightarrow> nat option" where
  "number [] = Some 0"
| "number (c # cs) =
     (case (digit_val c, number cs) of
        (Some d, Some n) \<Rightarrow> Some (d * 10 ^ length cs + n)
      | _ \<Rightarrow> None)"

definition days_in_month :: "nat \<Rightarrow> nat \<Rightarrow> nat" where
  "days_in_month y m =
     (if m = 2 then (if y mod 4 = 0 \<and> (y mod 100 \<noteq> 0 \<or> y mod 400 = 0) then 29 else 28)
      else if m = 4 \<or> m = 6 \<or> m = 9 \<or> m = 11 then 30 else 31)"

definition fromisoformat_ymd :: "string \<Rightarrow> date option" where
  "fromisoformat_ymd s =
     (if length s = 10 \<and> s ! 4 = CHR ''-'' \<and> s ! 7 = CHR ''-''
      then (case (number (take 4 s), number (take 2 (drop 5 s)), number (drop 8 s)) of
              (Some y, Some m, Some d) \<Rightarrow>
                if 1 \<le> y \<and> 1 \<le> m \<and> m \<le> 12 \<and> 1 \<le> d \<and> d \<le> days_in_month y m
                then Some (y, m, d) else None
            | _ \<Rightarrow> None)
      else None)"

section \<open>Example data\<close>

definition store_two_keys :: storage where
  "store_two_keys =
     \<lparr>admin_id = 1034877346,
      keys = [(''AB12-CD34-EF56'', new_key_data ''2025-01-01T10:00:00''),
              (''ZZZZ-0000-YYYY'', new_key_data ''2025-01-02T10:00:00'')],
      users = []\<rparr>"

definition store_user_zero :: storage where
  "store_user_zero =
     \<lparr>admin_id = 1034877346,
      keys = [(''AB12-CD34-EF56'',
               \<lparr>created_at = ''2025-01-01T10:00:00'', activated_by = Some 0,
                activated_by_username = None, activated_at = Some ''2025-02-01T00:00:00''\<rparr>),
              (''ZZZZ-0000-YYYY'', new_key_data ''2025-01-02T10:00:00'')],
      users = [(''0'', \<lparr>user_id = 0, username = None, key_used = ''AB12-CD34-EF56'',
                        user_activated_at = ''2025-02-01T00:00:00''\<rparr>)]\<rparr>"

definition store_mixed :: storage where
  "store_mixed =
     \<lparr>admin_id = 1034877346,
      keys = [(''AAAA-AAAA-AAAA'', new_key_data ''2025-01-01T10:00:00''),
              (''BBBB-BBBB-BBBB'',
               \<lparr>created_at = ''2025-01-02T10:00:00'', activated_by = Some 42,
                activated_by_username = Some ''@bob'',
                activated_at = Some ''2025-02-01T00:00:00''\<rparr>),
              (''CCCC-CCCC-CCCC'', new_key_data ''2025-01-03T10:00:00''),
              (''DDDD-DDDD-DDDD'',
               \<lparr>created_at = ''2025-01-04T10:00:00'', activated_by = Some 43,
                activated_by_username = None,
                activated_at = Some ''2025-02-02T00:00:00''\<rparr>)],
      users = [(''42'', \<lparr>user_id = 42, username = Some ''@bob'', key_used = ''BBBB-BBBB-BBBB'',
                        user_activated_at = ''2025-02-01T00:00:00''\<rparr>),
               (''43'', \<lparr>user_id = 43, username = None, key_used = ''DDDD-DDDD-DDDD'',
                        user_activated_at = ''2025-02-02T00:00:00''\<rparr>)]\<rparr>"

definition server_401 :: "nat \<Rightarrow> outcome" where
  "server_401 n = Response 401 None"

definition server_timeout_then_500 :: "nat \<Rightarrow> outcome" where
  "server_timeout_then_500 n =
     (if n = 0 then NetFail (TimeoutException ''timed out'') else Response 500 None)"

definition server_timeouts :: "nat \<Rightarrow> outcome" where
  "server_timeouts n = NetFail (TimeoutException ''timed out'')"

definition payload_math :: json where
  "payload_math =
     JObject [(''payload'',
       JArray [JObject [(''homework'', JString ''Read ch.5''),
                        (''date'', JString ''2025-12-15''),
                        (''subject_name'', JString ''Math'')]])]"

definition server_timeout_then_ok :: "nat \<Rightarrow> outcome" where
  "server_timeout_then_ok n =
     (if n = 0 then NetFail (TimeoutException ''timed out'')
      else Response 200 (Some payload_math))"

section \<open>Properties of the key store\<close>

lemma activate_key_success:
  assumes "map_of (keys s) k = Some kd" "activated_by kd = None"
    "\<not> dict_in (str_int uid) (users s)"
  shows "activate_key s k uid uname now =
    (True,
     s\<lparr>keys := AList.update k
            (kd\<lparr>activated_by := Some uid, activated_by_username := uname,
                activated_at := Some now\<rparr>) (keys s),
       users := AList.update (str_int uid)
            \<lparr>user_id = uid, username = uname, key_used = k,
             user_activated_at = now\<rparr> (users s)\<rparr>)"
  using assms by (simp add: activate_key_def)

lemma activate_key_true_iff:
  "fst (activate_key s k uid uname now) \<longleftrightarrow>
     (\<exists>kd. map_of (keys s) k = Some kd \<and> activated_by kd = None)
     \<and> \<not> dict_in (str_int uid) (users s)"
  by (auto simp: activate_key_def split: option.splits)

lemma activate_key_false_unchanged:
  "\<not> fst (activate_key s k uid uname now) \<Longrightarrow> snd (activate_key s k uid uname now) = s"
  by (auto simp: activate_key_def split: option.splits if_splits)

lemma dict_in_update: "dict_in k' (AList.update k v d) = (k' = k \<or> dict_in k' d)"
  by (simp add: dict_in_def update_conv')

lemma dict_in_delete: "dict_in k' (AList.delete k d) = (k' \<noteq> k \<and> dict_in k' d)"
  by (simp add: dict_in_def delete_conv')

lemma activate_key_again:
  assumes "fst (activate_key s k u1 n1 t1)"
  shows "activate_key (snd (activate_key s k u1 n1 t1)) k u2 n2 t2
           = (False, snd (activate_key s k u1 n1 t1))"
    and "\<exists>kd. map_of (keys (snd (activate_key s k u1 n1 t1))) k = Some kd
            \<and> activated_by kd = Some u1"
    and "activate_key (snd (activate_key s k u1 n1 t1)) k' u1 n2 t2
           = (False, snd (activate_key s k u1 n1 t1))"
  using assms
  by (auto simp: activate_key_def update_conv' dict_in_update split: option.splits if_splits)

lemma store_two_keys_activate:
  "activate_key store_two_keys ''AB12-CD34-EF56'' 42 (Some ''@bob'') ''2025-02-01T00:00:00''
     = (True,
        \<lparr>admin_id = 1034877346,
         keys = [(''AB12-CD34-EF56'',
                  \<lparr>created_at = ''2025-01-01T10:00:00'', activated_by = Some 42,
                   activated_by_username = Some ''@bob'',
                   activated_at = Some ''2025-02-01T00:00:00''\<rparr>),
                 (''ZZZZ-0000-YYYY'', new_key_data ''2025-01-02T10:00:00'')],
         users = [(''42'',
                   \<lparr>user_id = 42, username = Some ''@bob'', key_used = ''AB12-CD34-EF56'',
                    user_activated_at = ''2025-02-01T00:00:00''\<rparr>)]\<rparr>)"
  by (simp add: activate_key_def store_two_keys_def new_key_data_def dict_in_def
      str_int_def str_nat.simps digit_char_def)

lemma str_int_0: "str_int 0 = ''0''"
  by (simp add: str_int_def str_nat.simps digit_char_def)

lemma delete_key_missing: "map_of (keys s) k = None \<Longrightarrow> delete_key s k = (False, s)"
  by (simp add: delete_key_def)

lemma delete_key_stored:
  assumes "map_of (keys s) k = Some kd"
  shows "fst (delete_key s k)" and "map_of (keys (snd (delete_key s k))) k = None"
    and "\<And>k'. k' \<noteq> k \<Longrightarrow> map_of (keys (snd (delete_key s k))) k' = map_of (keys s) k'"
  using assms by (simp_all add: delete_key_def delete_conv')

lemma delete_key_removes_user:
  assumes "map_of (keys s) k = Some kd" "activated_by kd = Some u" "u \<noteq> 0"
  shows "\<not> dict_in (str_int u) (users (snd (delete_key s k)))"
    and "u \<noteq> admin_id s \<Longrightarrow> \<not> is_authorized (snd (delete_key s k)) u"
  using assms by (auto simp: delete_key_def dict_in_delete is_authorized_def)

lemma set_get_all_keys: "set (get_all_keys s) = to_AccessKey ` set (keys s)"
  by (simp add: get_all_keys_def sort_reverse_def)

lemma length_get_all_keys: "length (get_all_keys s) = length (keys s)"
  by (simp add: get_all_keys_def sort_reverse_def)

lemma get_all_keys_descending:
  "sorted (rev (map (\<lambda>x. (is_used x, created_at x)) (get_all_keys s)))"
  by (simp add: get_all_keys_def sort_reverse_def rev_map)

lemma partition_descending:
  assumes "sorted (rev (map (\<lambda>x. (is_used x, created_at x)) xs))"
  shows "sorted (rev (map created_at (filter (\<lambda>x. is_used x = b) xs)))"
proof -
  have "sorted_wrt (\<lambda>x y. (is_used y, created_at y) \<le> (is_used x, created_at x)) xs"
    using assms by (simp only: sorted_wrt_rev sorted_wrt_map)
  then have "sorted_wrt (\<lambda>x y. (is_used y, created_at y) \<le> (is_used x, created_at x))
      (filter (\<lambda>x. is_used x = b) xs)"
    by (rule sorted_wrt_filter)
  then have "sorted_wrt (\<lambda>x y. created_at y \<le> created_at x) (filter (\<lambda>x. is_used x = b) xs)"
    by (rule sorted_wrt_mono_rel[rotated]) (auto simp: less_eq_prod_def)
  then show ?thesis
    by (simp only: sorted_wrt_rev sorted_wrt_map)
qed

lemma get_unused_keys_descending: "sorted (rev (map created_at (get_unused_keys s)))"
  using partition_descending[OF get_all_keys_descending, of False s]
  by (simp add: get_unused_keys_def)

lemma get_used_keys_descending: "sorted (rev (map created_at (get_used_keys s)))"
  using partition_descending[OF get_all_keys_descending, of True s]
  by (simp add: get_used_keys_def)

lemma true_first_split:
  "sorted_wrt (\<lambda>x y. P y \<longrightarrow> P x) xs \<Longrightarrow> xs = filter P xs @ filter (\<lambda>x. \<not> P x) xs"
proof (induction xs)
  case Nil
  then show ?case by simp
next
  case (Cons x xs)
  show ?case
  proof (cases "P x")
    case True
    with Cons show ?thesis by simp
  next
    case False
    with Cons.prems have "\<forall>y\<in>set xs. \<not> P y" by auto
    then have "filter P xs = []" "filter (\<lambda>x. \<not> P x) xs = xs"
      by (simp_all add: filter_empty_conv filter_id_conv)
    with False show ?thesis by simp
  qed
qed

lemma get_all_keys_partition:
  "get_all_keys s = get_used_keys s @ get_unused_keys s"
proof -
  have "sorted_wrt (\<lambda>x y. (is_used y, created_at y) \<le> (is_used x, created_at x))
      (get_all_keys s)"
    using get_all_keys_descending[of s] by (simp only: sorted_wrt_rev sorted_wrt_map)
  then have "sorted_wrt (\<lambda>x y. is_used y \<longrightarrow> is_used x) (get_all_keys s)"
    by (rule sorted_wrt_mono_rel[rotated]) (auto simp: less_eq_prod_def)
  from true_first_split[OF this] show ?thesis
    by (simp add: get_used_keys_def get_unused_keys_def)
qed

lemma chars_upper_or_digit: "list_all is_upper_or_digit chars"
  by (simp add: chars_def is_upper_or_digit_def less_eq_char_def)

lemma secrets_choice_chars: "is_upper_or_digit (secrets_choice chars r)"
proof -
  have "r mod length chars < length chars" by (simp add: chars_def)
  then have "chars ! (r mod length chars) \<in> set chars" by (rule nth_mem)
  with chars_upper_or_digit show ?thesis
    by (simp add: secrets_choice_def list_all_iff)
qed

lemma list12:
  assumes "length (rs :: 'a list) = 12"
  obtains r0 r1 r2 r3 r4 r5 r6 r7 r8 r9 r10 r11
  where "rs = [r0, r1, r2, r3, r4, r5, r6, r7, r8, r9, r10, r11]"
  using assms by (auto simp: numeral_eq_Suc length_Suc_conv)

lemma draw_key_format: "length rs = 12 \<Longrightarrow> key_format (draw_key rs)"
  by (erule list12)
     (simp add: draw_key_def key_format_def is_group_def secrets_choice_chars upt_rec)

lemma generate_key_loop_Some:
  "generate_key_loop ks rs = Some k \<Longrightarrow>
     \<not> dict_in k ks \<and> (\<exists>rs'. length rs' = 12 \<and> k = draw_key rs')"
proof (induction ks rs rule: generate_key_loop.induct)
  case (1 ks rs)
  show ?case
  proof (cases "length rs < 12")
    case True
    with "1.prems" show ?thesis by (simp add: generate_key_loop.simps)
  next
    case long: False
    show ?thesis
    proof (cases "dict_in (draw_key (take 12 rs)) ks")
      case True
      with long "1.prems" have "generate_key_loop ks (drop 12 rs) = Some k"
        by (simp add: generate_key_loop.simps[of ks rs])
      with "1.IH" long True show ?thesis by simp
    next
      case False
      with long "1.prems" have "k = draw_key (take 12 rs)"
        by (simp add: generate_key_loop.simps[of ks rs])
      moreover from long have "length (take 12 rs) = 12" by simp
      ultimately show ?thesis using False by blast
    qed
  qed
qed

lemma generate_key_loop_returns:
  "12 * (i + 1) \<le> length rs \<Longrightarrow> \<not> dict_in (draw_key (take 12 (drop (12 * i) rs))) ks \<Longrightarrow>
     generate_key_loop ks rs \<noteq> None"
proof (induction i arbitrary: rs)
  case 0
  then show ?case by (simp add: generate_key_loop.simps[of ks rs])
next
  case (Suc i)
  have "12 * (i + 1) \<le> length (drop 12 rs)" using Suc.prems(1) by simp
  moreover have "drop (12 * i) (drop 12 rs) = drop (12 * Suc i) rs"
    by (simp add: add.commute)
  ultimately have "generate_key_loop ks (drop 12 rs) \<noteq> None"
    using Suc.IH[of "drop 12 rs"] Suc.prems(2) by simp
  moreover have "\<not> length rs < 12" using Suc.prems(1) by simp
  ultimately show ?case by (simp add: generate_key_loop.simps[of ks rs])
qed

lemma update_absent: "map_of al k = None \<Longrightarrow> AList.update k v al = al @ [(k, v)]"
  by (induction al) (auto split: if_splits)

lemma generate_key_Some:
  assumes "generate_key s now rs = Some (tok, s')"
  shows "key_format tok" and "\<not> dict_in tok (keys s)"
    and "s' = s\<lparr>keys := keys s @ [(tok, new_key_data now)]\<rparr>"
proof -
  from assms have l: "generate_key_loop (keys s) rs = Some tok"
    and s': "s' = s\<lparr>keys := AList.update tok (new_key_data now) (keys s)\<rparr>"
    by (auto simp: generate_key_def split: option.splits)
  from generate_key_loop_Some[OF l] show "key_format tok" "\<not> dict_in tok (keys s)"
    by (auto simp: draw_key_format)
  then have "map_of (keys s) tok = None" by (simp add: dict_in_def)
  with s' show "s' = s\<lparr>keys := keys s @ [(tok, new_key_data now)]\<rparr>"
    by (simp add: update_absent)
qed

lemma dict_in_set: "dict_in k d \<longleftrightarrow> k \<in> set (map fst d)"
  by (simp add: dict_in_def map_of_eq_None_iff)

lemma generate_run_distinct:
  "run_ops s (map (\<lambda>g. GenerateKey (fst g) (snd g)) gs) = Some s' \<Longrightarrow>
   distinct (map fst (keys s)) \<Longrightarrow>
     distinct (map fst (keys s')) \<and> length (keys s') = length (keys s) + length gs
     \<and> take (length (keys s)) (keys s') = keys s"
proof (induction gs arbitrary: s)
  case Nil
  then show ?case by simp
next
  case (Cons g gs)
  from Cons.prems(1) obtain tok s1 where g: "generate_key s (fst g) (snd g) = Some (tok, s1)"
    and r: "run_ops s1 (map (\<lambda>g. GenerateKey (fst g) (snd g)) gs) = Some s'"
    by (auto split: option.splits)
  from generate_key_Some[OF g] have fresh: "\<not> dict_in tok (keys s)"
    and s1: "keys s1 = keys s @ [(tok, new_key_data (fst g))]" by simp_all
  from fresh Cons.prems(2) s1 have d1: "distinct (map fst (keys s1))"
    by (simp add: dict_in_set)
  from Cons.IH[OF r d1] s1 show ?case
    by (auto simp: take_Suc_conv_app_nth dest: arg_cong[where f="take (length (keys s))"])
qed

lemma store_mixed_generate:
  "generate_key store_mixed ''2025-03-01T00:00:00'' (replicate 12 0 @ replicate 12 4)
     = Some (''EEEE-EEEE-EEEE'',
             store_mixed\<lparr>keys := keys store_mixed
                @ [(''EEEE-EEEE-EEEE'', new_key_data ''2025-03-01T00:00:00'')]\<rparr>)"
  by code_simp

lemma upper_of_differs:
  "differs_only_in_case t tok \<Longrightarrow> upper tok = tok \<Longrightarrow> upper t = tok"
  unfolding differs_only_in_case_def upper_def
proof (induction t tok rule: list_all2_induct)
  case Nil
  then show ?case by simp
next
  case (Cons x xs y ys)
  then show ?case by auto
qed

lemma upper_char_upper_or_digit: "is_upper_or_digit c \<Longrightarrow> upper_char c = c"
proof -
  assume a: "is_upper_or_digit c"
  have "map_of (zip ''abcdefghijklmnopqrstuvwxyz'' ''ABCDEFGHIJKLMNOPQRSTUVWXYZ'') c = None"
  proof (rule ccontr)
    assume "map_of (zip ''abcdefghijklmnopqrstuvwxyz'' ''ABCDEFGHIJKLMNOPQRSTUVWXYZ'') c \<noteq> None"
    then obtain u where
      "map_of (zip ''abcdefghijklmnopqrstuvwxyz'' ''ABCDEFGHIJKLMNOPQRSTUVWXYZ'') c = Some u"
      by blast
    then have "c \<in> set ''abcdefghijklmnopqrstuvwxyz''"
      by (meson map_of_SomeD set_zip_leftD)
    with a show False
      by (auto simp: is_upper_or_digit_def less_eq_char_def)
  qed
  then show ?thesis by (simp add: upper_char_def)
qed

lemma upper_key_format: "key_format tok \<Longrightarrow> upper tok = tok"
proof -
  assume k: "key_format tok"
  then have len: "length tok = 14" by (simp add: key_format_def)
  from k len have g1: "\<forall>n<4. is_upper_or_digit (tok ! n)"
    and g2: "\<forall>n<4. is_upper_or_digit (tok ! (5 + n))"
    and g3: "\<forall>n<4. is_upper_or_digit (tok ! (10 + n))"
    and h: "tok ! 4 = CHR ''-''" "tok ! 9 = CHR ''-''"
    by (simp_all add: key_format_def is_group_def list_all_length)
  have "upper_char (tok ! i) = tok ! i" if "i < 14" for i
  proof -
    consider "i < 4" | "i = 4" | "5 \<le> i \<and> i < 9" | "i = 9" | "10 \<le> i" by linarith
    then show ?thesis
    proof cases
      case 1
      with g1 show ?thesis by (simp add: upper_char_upper_or_digit)
    next
      case 2
      with h show ?thesis by (simp add: upper_char_def)
    next
      case 3
      then have "i - 5 < 4" by arith
      with g2 have "is_upper_or_digit (tok ! (5 + (i - 5)))" by blast
      with 3 show ?thesis by (simp add: upper_char_upper_or_digit)
    next
      case 4
      with h show ?thesis by (simp add: upper_char_def)
    next
      case 5
      with that have "i - 10 < 4" by arith
      with g3 have "is_upper_or_digit (tok ! (10 + (i - 10)))" by blast
      with 5 show ?thesis by (simp add: upper_char_upper_or_digit)
    qed
  qed
  with len show ?thesis
    by (simp add: upper_def list_eq_iff_nth_eq)
qed

subsection \<open>The retry loop and the parser\<close>

lemma requests_of_append: "requests_of (a @ b) = requests_of a @ requests_of b"
  by (simp add: requests_of_def)

lemma fetch_loop_requests_bound:
  "length (requests_of (snd (fetch_loop lib server mr as lerr tr)))
     \<le> length (requests_of tr) + length as"
proof (induction as arbitrary: lerr tr)
  case Nil
  then show ?case by simp
next
  case (Cons a as)
  show ?case
  proof (cases "server a")
    case (Response status body)
    then show ?thesis
      by (simp add: requests_of_append requests_of_def split: option.splits)
  next
    case (NetFail e)
    have "length (requests_of (snd (fetch_loop lib server mr as (Some e)
            (tr @ [Request a] @ (if int a < mr - 1 then [Sleep (2 ^ a)] else [])))))
          \<le> length (requests_of (tr @ [Request a]
                @ (if int a < mr - 1 then [Sleep (2 ^ a)] else []))) + length as"
      by (rule Cons.IH)
    also have "\<dots> = length (requests_of tr) + length (a # as)"
      by (simp add: requests_of_append requests_of_def)
    finally show ?thesis using NetFail by simp
  next
    case (Raises msg)
    then show ?thesis by (simp add: requests_of_append requests_of_def)
  qed
qed

lemma failed_attempts_Suc:
  "a \<le> k \<Longrightarrow> failed_attempts mr a (Suc k) =
     failed_attempts mr a k @ Request k # (if int k < mr - 1 then [Sleep (2 ^ k)] else [])"
  by (simp add: failed_attempts_def)

lemma fetch_loop_failed_prefix:
  assumes "\<forall>i. a \<le> i \<and> i < k \<longrightarrow> server i = NetFail (e i)" "a \<le> k" "k \<le> n"
  shows "fetch_loop lib server mr [a..<n] lerr tr =
    fetch_loop lib server mr [k..<n] (if k = a then lerr else Some (e (k - 1)))
      (tr @ failed_attempts mr a k)"
  using assms
proof (induction k)
  case 0
  then show ?case by (simp add: failed_attempts_def)
next
  case (Suc k)
  show ?case
  proof (cases "a = Suc k")
    case True
    then show ?thesis by (simp add: failed_attempts_def)
  next
    case False
    with Suc.prems have ak: "a \<le> k" and kn: "k < n" and sk: "server k = NetFail (e k)"
      by auto
    from Suc.prems ak kn
    have "fetch_loop lib server mr [a..<n] lerr tr =
      fetch_loop lib server mr [k..<n] (if k = a then lerr else Some (e (k - 1)))
        (tr @ failed_attempts mr a k)"
      by (intro Suc.IH) auto
    also have "[k..<n] = k # [Suc k..<n]" using kn by (simp add: upt_conv_Cons)
    finally show ?thesis
      using sk False by (simp add: failed_attempts_Suc[OF ak])
  qed
qed

lemma fetch_homeworks_prefix:
  assumes "\<forall>i<k. server i = NetFail (e i)" "k \<le> nat mr"
  shows "fetch_homeworks lib server mr =
    fetch_loop lib server mr [k..<nat mr] (if k = 0 then None else Some (e (k - 1)))
      (failed_attempts mr 0 k)"
  unfolding fetch_homeworks_def
  using fetch_loop_failed_prefix[of 0 k server e "nat mr" lib mr None "[]"] assms
  by simp

lemma failed_attempts_sleeps:
  "int k \<le> mr - 1 \<Longrightarrow>
     failed_attempts mr a k = concat (map (\<lambda>i. [Request i, Sleep (2 ^ i)]) [a..<k])"
  unfolding failed_attempts_def
  by (rule arg_cong[where f=concat], rule map_cong) auto

lemma parse_homeworks_not_list:
  "parse_homeworks lib JNull = Inr []"
  "parse_homeworks lib (JBool b) = Inr []"
  "parse_homeworks lib (JInt n) = Inr []"
  "parse_homeworks lib (JString s) = Inr []"
  "parse_homeworks lib (JObject []) = Inr []"
  by (simp_all add: parse_homeworks_def unwrap_def py_or_def dict_get_def get_default_def
      sort_items_def)

lemma parse_homework_skips:
  "parse_homework lib JNull = Inr None"
  "parse_homework lib (JBool b) = Inr None"
  "parse_homework lib (JInt n) = Inr None"
  "parse_homework lib (JString s) = Inr None"
  "parse_homework lib (JArray xs) = Inr None"
  by (simp_all add: parse_homework_def)

lemma requests_of_failed_attempts: "requests_of (failed_attempts mr a k) = [a..<k]"
proof (induction k)
  case 0
  then show ?case by (simp add: failed_attempts_def requests_of_def)
next
  case (Suc k)
  show ?case
  proof (cases "a \<le> k")
    case True
    with Suc show ?thesis
      by (simp add: failed_attempts_Suc requests_of_append) (simp add: requests_of_def)
  next
    case False
    then show ?thesis by (simp add: failed_attempts_def requests_of_def)
  qed
qed

lemma fetch_homeworks_at:
  assumes "\<forall>i<k. server i = NetFail (e i)" "k < nat mr"
  shows "fetch_homeworks lib server mr =
    fetch_loop lib server mr (k # [Suc k..<nat mr]) (if k = 0 then None else Some (e (k - 1)))
      (failed_attempts mr 0 k)"
  using fetch_homeworks_prefix[of k server e mr lib] assms
  by (simp add: upt_conv_Cons)

lemma fromisoformat_ymd_example: "fromisoformat_ymd ''2025-12-15'' = Some (2025, 12, 15)"
  by (simp add: fromisoformat_ymd_def digit_val_def days_in_month_def upt_rec)

lemma parse_payload_math:
  "parse_homeworks \<lparr>py_str = f, fromisoformat = fromisoformat_ymd\<rparr> payload_math =
     Inr [\<lparr>subject = JString ''Math'', homework_date = (2025, 12, 15),
           homework_text = ''Read ch.5'', is_done = JBool False, materials = []\<rparr>]"
proof -
  have s: "strip ''Read ch.5'' = ''Read ch.5''"
    by (simp add: strip_def isspace_def)
  show ?thesis
    by (simp add: parse_homeworks_def payload_math_def unwrap_def parse_homework_def
        dict_get_def get_default_def py_or_def str_json_def s Let_def sort_items_def
        fromisoformat_ymd_example)
qed


lemma fetch_homeworks_stops:
  assumes "\<forall>i<k. server i = NetFail (e i)" "k < nat mr" "\<forall>err. server k \<noteq> NetFail err"
  shows "snd (fetch_homeworks lib server mr) = failed_attempts mr 0 k @ [Request k]"
  using assms(3)
  by (cases "server k")
     (simp_all add: fetch_homeworks_at[OF assms(1,2)] split: option.splits)

section \<open>The claims\<close>

text \<open>
  C1.  For every store, \<^verbatim>\<open>activate_key(token, user_id, name)\<close> returns true exactly
  when the token is stored, its \<^verbatim>\<open>activated_by\<close> is null and \<^verbatim>\<open>str(user_id)\<close> has no
  entry among the users.  When it returns true the store is the old one with the key
  marked (activator, display name, time) and the user record added; when it returns
  false the store is unchanged.  After a successful activation, a second activation of
  the same token by any user returns false, leaves the store as it is, and the key's
  \<^verbatim>\<open>activated_by\<close> is still the first activator; and a second activation by the same
  user with any token returns false and leaves the store as it is.
\<close>

theorem activate_key_spec:
  "(fst (activate_key s k uid uname now) \<longleftrightarrow>
      (\<exists>kd. map_of (keys s) k = Some kd \<and> activated_by kd = None)
      \<and> \<not> dict_in (str_int uid) (users s))
   \<and> (fst (activate_key s k uid uname now) \<longrightarrow>
        (\<exists>kd. map_of (keys s) k = Some kd \<and>
          snd (activate_key s k uid uname now) =
            s\<lparr>keys := AList.update k
                  (kd\<lparr>activated_by := Some uid, activated_by_username := uname,
                      activated_at := Some now\<rparr>) (keys s),
              users := AList.update (str_int uid)
                  \<lparr>user_id = uid, username = uname, key_used = k,
                   user_activated_at = now\<rparr> (users s)\<rparr>))
   \<and> (\<not> fst (activate_key s k uid uname now) \<longrightarrow> snd (activate_key s k uid uname now) = s)
   \<and> (fst (activate_key s k uid uname now) \<longrightarrow>
        activate_key (snd (activate_key s k uid uname now)) k uid2 uname2 now2
          = (False, snd (activate_key s k uid uname now))
        \<and> (\<exists>kd. map_of (keys (snd (activate_key s k uid uname now))) k = Some kd
               \<and> activated_by kd = Some uid)
        \<and> activate_key (snd (activate_key s k uid uname now)) k2 uid uname2 now2
          = (False, snd (activate_key s k uid uname now)))"
proof (intro conjI impI)
  show "fst (activate_key s k uid uname now) \<longleftrightarrow>
      (\<exists>kd. map_of (keys s) k = Some kd \<and> activated_by kd = None)
      \<and> \<not> dict_in (str_int uid) (users s)"
    by (rule activate_key_true_iff)
next
  assume "fst (activate_key s k uid uname now)"
  then show "\<exists>kd. map_of (keys s) k = Some kd \<and>
          snd (activate_key s k uid uname now) =
            s\<lparr>keys := AList.update k
                  (kd\<lparr>activated_by := Some uid, activated_by_username := uname,
                      activated_at := Some now\<rparr>) (keys s),
              users := AList.update (str_int uid)
                  \<lparr>user_id = uid, username = uname, key_used = k,
                   user_activated_at = now\<rparr> (users s)\<rparr>"
    by (auto simp: activate_key_def split: option.splits if_splits)
next
  assume "\<not> fst (activate_key s k uid uname now)"
  then show "snd (activate_key s k uid uname now) = s"
    by (rule activate_key_false_unchanged)
next
  assume a: "fst (activate_key s k uid uname now)"
  show "activate_key (snd (activate_key s k uid uname now)) k uid2 uname2 now2
          = (False, snd (activate_key s k uid uname now))"
    by (rule activate_key_again(1)[OF a])
  show "\<exists>kd. map_of (keys (snd (activate_key s k uid uname now))) k = Some kd
               \<and> activated_by kd = Some uid"
    by (rule activate_key_again(2)[OF a])
  show "activate_key (snd (activate_key s k uid uname now)) k2 uid uname2 now2
          = (False, snd (activate_key s k uid uname now))"
    by (rule activate_key_again(3)[OF a])
qed

theorem activate_key_spec_witness:
  "fst (activate_key store_two_keys ''AB12-CD34-EF56'' 42 (Some ''@bob'') ''2025-02-01T00:00:00'')
   \<and> map_of (keys store_two_keys) ''AB12-CD34-EF56'' = Some (new_key_data ''2025-01-01T10:00:00'')
   \<and> \<not> dict_in (str_int 42) (users store_two_keys)
   \<and> activate_key
        (snd (activate_key store_two_keys ''AB12-CD34-EF56'' 42 (Some ''@bob'')
               ''2025-02-01T00:00:00''))
        ''AB12-CD34-EF56'' 77 None ''2025-02-02T00:00:00''
      = (False, snd (activate_key store_two_keys ''AB12-CD34-EF56'' 42 (Some ''@bob'')
                      ''2025-02-01T00:00:00''))
   \<and> activate_key
        (snd (activate_key store_two_keys ''AB12-CD34-EF56'' 42 (Some ''@bob'')
               ''2025-02-01T00:00:00''))
        ''ZZZZ-0000-YYYY'' 42 None ''2025-02-02T00:00:00''
      = (False, snd (activate_key store_two_keys ''AB12-CD34-EF56'' 42 (Some ''@bob'')
                      ''2025-02-01T00:00:00''))
   \<and> \<not> fst (activate_key store_two_keys ''NONE-NONE-NONE'' 42 None ''2025-02-01T00:00:00'')
   \<and> snd (activate_key store_two_keys ''NONE-NONE-NONE'' 42 None ''2025-02-01T00:00:00'')
       = store_two_keys"
proof -
  have a: "fst (activate_key store_two_keys ''AB12-CD34-EF56'' 42 (Some ''@bob'')
                 ''2025-02-01T00:00:00'')"
    by (simp add: store_two_keys_activate)
  have n: "\<not> fst (activate_key store_two_keys ''NONE-NONE-NONE'' 42 None
                   ''2025-02-01T00:00:00'')"
    by (simp add: activate_key_def store_two_keys_def)
  have k: "map_of (keys store_two_keys) ''AB12-CD34-EF56''
             = Some (new_key_data ''2025-01-01T10:00:00'')"
    by (simp add: store_two_keys_def)
  have u: "\<not> dict_in (str_int 42) (users store_two_keys)"
    by (simp add: store_two_keys_def dict_in_def)
  from a n k u
    activate_key_spec [of store_two_keys "''AB12-CD34-EF56''" 42 "Some ''@bob''"
      "''2025-02-01T00:00:00''" 77 None "''2025-02-02T00:00:00''" "''ZZZZ-0000-YYYY''"]
    activate_key_spec [of store_two_keys "''NONE-NONE-NONE''" 42 None
      "''2025-02-01T00:00:00''" 77 None "''2025-02-02T00:00:00''" "''ZZZZ-0000-YYYY''"]
  show ?thesis by blast
qed

text \<open>
  C10.  \<^verbatim>\<open>activate_key\<close> has no check of the configured super-user: when the
  super-user's id has no user record, activating a stored, unused token with the
  super-user's id returns true, marks the key as used by the super-user and stores a
  user record for the super-user.
\<close>

theorem activate_key_admin:
  assumes "map_of (keys s) k = Some kd" "activated_by kd = None"
    "\<not> dict_in (str_int (admin_id s)) (users s)"
  shows "is_admin s (admin_id s)
    \<and> fst (activate_key s k (admin_id s) uname now)
    \<and> map_of (keys (snd (activate_key s k (admin_id s) uname now))) k =
        Some (kd\<lparr>activated_by := Some (admin_id s), activated_by_username := uname,
                 activated_at := Some now\<rparr>)
    \<and> is_used (kd\<lparr>activated_by := Some (admin_id s), activated_by_username := uname,
                 activated_at := Some now\<rparr>)
    \<and> map_of (users (snd (activate_key s k (admin_id s) uname now))) (str_int (admin_id s)) =
        Some \<lparr>user_id = admin_id s, username = uname, key_used = k, user_activated_at = now\<rparr>"
  using assms
  by (simp add: activate_key_success update_conv' is_used_def is_admin_def)

theorem activate_key_admin_witness:
  "is_admin store_two_keys 1034877346
   \<and> fst (activate_key store_two_keys ''AB12-CD34-EF56'' 1034877346 None ''2025-02-01T00:00:00'')
   \<and> map_of (keys (snd (activate_key store_two_keys ''AB12-CD34-EF56'' 1034877346 None
                          ''2025-02-01T00:00:00''))) ''AB12-CD34-EF56'' =
        Some \<lparr>created_at = ''2025-01-01T10:00:00'', activated_by = Some 1034877346,
              activated_by_username = None, activated_at = Some ''2025-02-01T00:00:00''\<rparr>
   \<and> map_of (users (snd (activate_key store_two_keys ''AB12-CD34-EF56'' 1034877346 None
                          ''2025-02-01T00:00:00''))) ''1034877346'' =
        Some \<lparr>user_id = 1034877346, username = None, key_used = ''AB12-CD34-EF56'',
              user_activated_at = ''2025-02-01T00:00:00''\<rparr>"
proof -
  have adm: "admin_id store_two_keys = 1034877346"
    by (simp add: store_two_keys_def)
  have str: "str_int 1034877346 = ''1034877346''"
    by (simp add: str_int_def str_nat.simps digit_char_def)
  have k: "map_of (keys store_two_keys) ''AB12-CD34-EF56''
             = Some (new_key_data ''2025-01-01T10:00:00'')"
    by (simp add: store_two_keys_def)
  have f: "activated_by (new_key_data ''2025-01-01T10:00:00'') = None"
    by (simp add: new_key_data_def)
  have u: "\<not> dict_in (str_int (admin_id store_two_keys)) (users store_two_keys)"
    by (simp add: store_two_keys_def dict_in_def)
  from activate_key_admin [OF k f u, of None "''2025-02-01T00:00:00''"]
  show ?thesis
    by (simp add: adm str new_key_data_def)
qed

text \<open>
  C7.  \<^verbatim>\<open>delete_key(token)\<close> returns false and changes nothing for a token that is
  not stored (\<open>delete_key_missing\<close>); for a stored token it removes the key and returns
  true (\<open>delete_key_stored\<close>); and it removes the user record of the activator when
  the activator's id is not 0 (\<open>delete_key_removes_user\<close>).  The test of the activator is
  \<^verbatim>\<open>if key_data.get("activated_by")\<close>, the truth value of the id, where the sibling
  tests in \<^verbatim>\<open>activate_key\<close> and \<^verbatim>\<open>is_used\<close> are \<^verbatim>\<open>is not None\<close>: a key
  activated by the user id 0 is deleted without its user record, and
  \<^verbatim>\<open>is_authorized(0)\<close> stays true.  The theorem runs the code there.
\<close>

theorem delete_key_user_zero_kept:
  "activate_key store_two_keys ''AB12-CD34-EF56'' 0 None ''2025-02-01T00:00:00''
     = (True, store_user_zero)
   \<and> delete_key store_user_zero ''AB12-CD34-EF56''
     = (True, store_user_zero\<lparr>keys := [(''ZZZZ-0000-YYYY'', new_key_data ''2025-01-02T10:00:00'')]\<rparr>)
   \<and> users (snd (delete_key store_user_zero ''AB12-CD34-EF56'')) = users store_user_zero
   \<and> is_authorized (snd (delete_key store_user_zero ''AB12-CD34-EF56'')) 0
   \<and> is_admin store_user_zero 0 = False"
  by (simp add: activate_key_def delete_key_def store_two_keys_def store_user_zero_def
      new_key_data_def dict_in_def str_int_0 is_authorized_def is_admin_def)

text \<open>
  C6.  The listing returns every stored key (\<open>set_get_all_keys\<close>) and inside each
  partition the keys are in descending order of creation time
  (\<open>get_unused_keys_descending\<close>, \<open>get_used_keys_descending\<close>).  The order of the
  partitions is the reverse of the claimed one: the sort key \<^verbatim>\<open>(is_used, created_at)\<close>
  is sorted with \<^verbatim>\<open>reverse=True\<close>, so the used keys come first
  (\<open>get_all_keys_partition\<close>), against the comment of the source (unused first).  The
  theorem runs the listing on a store with two unused and two used keys.
\<close>

theorem get_all_keys_used_first:
  "map (\<lambda>x. (key x, is_used x)) (get_all_keys store_mixed) =
     [(''DDDD-DDDD-DDDD'', True), (''BBBB-BBBB-BBBB'', True),
      (''CCCC-CCCC-CCCC'', False), (''AAAA-AAAA-AAAA'', False)]"
  by code_simp

text \<open>
  C2.  From the empty store, the run generate, activate by user 0, delete, generate
  (the same token drawn again), activate by user 7 ends in a store with one key and two
  user records that both name this key in \<^verbatim>\<open>key_used\<close>: at most one user record per
  \<^verbatim>\<open>key_used\<close> does not hold.  The record of user 0 survives the deletion of its key
  because \<^verbatim>\<open>delete_key\<close> tests the truth value of \<^verbatim>\<open>activated_by\<close>.
\<close>

theorem two_users_one_key:
  "map_option (\<lambda>s. (map fst (keys s), map (\<lambda>p. (user_id (snd p), key_used (snd p))) (users s)))
     (run_ops (empty_storage 1034877346)
       [GenerateKey ''2025-01-01T10:00:00'' (replicate 12 0),
        ActivateKey ''AAAA-AAAA-AAAA'' 0 None ''2025-01-02T10:00:00'',
        DeleteKey ''AAAA-AAAA-AAAA'',
        GenerateKey ''2025-01-03T10:00:00'' (replicate 12 0),
        ActivateKey ''AAAA-AAAA-AAAA'' 7 None ''2025-01-04T10:00:00''])
   = Some ([''AAAA-AAAA-AAAA''], [(0, ''AAAA-AAAA-AAAA''), (7, ''AAAA-AAAA-AAAA'')])"
  by code_simp

text \<open>
  C8.  When \<^verbatim>\<open>generate_key\<close> returns a token, the token has the format of three
  groups of four upper-case letters or digits separated by hyphens, it was not stored
  before, and the new store is the old one with the token appended, its
  \<^verbatim>\<open>activated_by\<close>, \<^verbatim>\<open>activated_by_username\<close> and \<^verbatim>\<open>activated_at\<close> all null.  The
  call returns as soon as one round of draws gives a token that is not stored.  A run of
  \<open>N\<close> calls from a store with distinct tokens keeps the old keys and ends with \<open>N\<close>
  more keys, all tokens distinct.
\<close>

theorem generate_key_spec:
  "(generate_key s now rs = Some (tok, s') \<longrightarrow>
      key_format tok \<and> \<not> dict_in tok (keys s)
      \<and> s' = s\<lparr>keys := keys s @ [(tok, new_key_data now)]\<rparr>
      \<and> map_of (keys s') tok =
          Some \<lparr>created_at = now, activated_by = None, activated_by_username = None,
                activated_at = None\<rparr>)
   \<and> (12 * (i + 1) \<le> length rs
        \<and> \<not> dict_in (draw_key (take 12 (drop (12 * i) rs))) (keys s) \<longrightarrow>
      (\<exists>r. generate_key s now rs = Some r))
   \<and> (run_ops s (map (\<lambda>g. GenerateKey (fst g) (snd g)) gs) = Some sN
        \<and> distinct (map fst (keys s)) \<longrightarrow>
      distinct (map fst (keys sN)) \<and> length (keys sN) = length (keys s) + length gs
      \<and> take (length (keys s)) (keys sN) = keys s)"
proof (intro conjI impI)
  assume g: "generate_key s now rs = Some (tok, s')"
  show "key_format tok" by (rule generate_key_Some(1)[OF g])
  show f: "\<not> dict_in tok (keys s)" by (rule generate_key_Some(2)[OF g])
  show e: "s' = s\<lparr>keys := keys s @ [(tok, new_key_data now)]\<rparr>"
    by (rule generate_key_Some(3)[OF g])
  from f have "map_of (keys s) tok = None" by (simp add: dict_in_def)
  with e show "map_of (keys s') tok =
          Some \<lparr>created_at = now, activated_by = None, activated_by_username = None,
                activated_at = None\<rparr>"
    by (simp add: new_key_data_def map_add_def)
next
  assume "12 * (i + 1) \<le> length rs
        \<and> \<not> dict_in (draw_key (take 12 (drop (12 * i) rs))) (keys s)"
  then have "12 * (i + 1) \<le> length rs"
    and "\<not> dict_in (draw_key (take 12 (drop (12 * i) rs))) (keys s)"
    by simp_all
  then have "generate_key_loop (keys s) rs \<noteq> None"
    by (rule generate_key_loop_returns)
  then show "\<exists>r. generate_key s now rs = Some r"
    by (auto simp: generate_key_def)
next
  assume a: "run_ops s (map (\<lambda>g. GenerateKey (fst g) (snd g)) gs) = Some sN
        \<and> distinct (map fst (keys s))"
  from generate_run_distinct[of s gs sN] a
  show "distinct (map fst (keys sN))" "length (keys sN) = length (keys s) + length gs"
    "take (length (keys s)) (keys sN) = keys s"
    by simp_all
qed

theorem generate_key_spec_witness:
  "generate_key store_mixed ''2025-03-01T00:00:00'' (replicate 12 0 @ replicate 12 4)
     = Some (''EEEE-EEEE-EEEE'',
             store_mixed\<lparr>keys := keys store_mixed
                @ [(''EEEE-EEEE-EEEE'', new_key_data ''2025-03-01T00:00:00'')]\<rparr>)
   \<and> dict_in (draw_key (take 12 (replicate 12 0 @ replicate 12 4))) (keys store_mixed)
   \<and> key_format ''EEEE-EEEE-EEEE''
   \<and> \<not> dict_in ''EEEE-EEEE-EEEE'' (keys store_mixed)
   \<and> map_of (keys (store_mixed\<lparr>keys := keys store_mixed
                @ [(''EEEE-EEEE-EEEE'', new_key_data ''2025-03-01T00:00:00'')]\<rparr>))
        ''EEEE-EEEE-EEEE''
      = Some \<lparr>created_at = ''2025-03-01T00:00:00'', activated_by = None,
              activated_by_username = None, activated_at = None\<rparr>"
proof -
  have c: "dict_in (draw_key (take 12 (replicate 12 0 @ replicate 12 4))) (keys store_mixed)"
    by code_simp
  from c store_mixed_generate
    generate_key_spec [of store_mixed "''2025-03-01T00:00:00''"
      "replicate 12 0 @ replicate 12 4" "''EEEE-EEEE-EEEE''"
      "store_mixed\<lparr>keys := keys store_mixed
                @ [(''EEEE-EEEE-EEEE'', new_key_data ''2025-03-01T00:00:00'')]\<rparr>"]
  show ?thesis by simp
qed

text \<open>
  C9 as stated fails: the store compares tokens exactly.  With the upper-case token
  stored, \<^verbatim>\<open>activate_key\<close> and \<^verbatim>\<open>delete_key\<close> called with the lower-case spelling
  return false and change nothing.
\<close>

theorem activate_key_case_sensitive:
  "differs_only_in_case ''ab12-cd34-ef56'' ''AB12-CD34-EF56''
   \<and> map_of (keys store_two_keys) ''AB12-CD34-EF56'' = Some (new_key_data ''2025-01-01T10:00:00'')
   \<and> activate_key store_two_keys ''ab12-cd34-ef56'' 42 None ''2025-02-01T00:00:00''
       = (False, store_two_keys)
   \<and> delete_key store_two_keys ''ab12-cd34-ef56'' = (False, store_two_keys)"
  by (simp add: differs_only_in_case_def upper_char_def activate_key_def delete_key_def
      store_two_keys_def)


text \<open>
  C9, amended.  The store matches tokens exactly: \<^verbatim>\<open>activate_key\<close> and
  \<^verbatim>\<open>delete_key\<close> return false and change nothing for every token that is not stored as
  given.  The key prompt \<^verbatim>\<open>process_key_input\<close> trims and upper-cases the text before
  it calls \<^verbatim>\<open>activate_key\<close>: for a stored key whose token has the generated format, a
  text that after trimming differs from the token only in letter case activates exactly
  that key when the key is unused and the user has no record, and is rejected without a
  change otherwise.
\<close>

theorem process_key_input_ignores_case:
  assumes "map_of (keys s) tok = Some kd" "key_format tok"
    "differs_only_in_case (strip text) tok"
  shows "process_key_input s text uid uname full_name now =
      (if activated_by kd = None \<and> \<not> dict_in (str_int uid) (users s)
       then (KeyActivated,
             s\<lparr>keys := AList.update tok
                   (kd\<lparr>activated_by := Some uid,
                       activated_by_username := Some (display_name uname full_name),
                       activated_at := Some now\<rparr>) (keys s),
               users := AList.update (str_int uid)
                   \<lparr>user_id = uid, username = Some (display_name uname full_name),
                    key_used = tok, user_activated_at = now\<rparr> (users s)\<rparr>)
       else (KeyRejected, s))
    \<and> (map_of (keys s) t = None \<longrightarrow>
          activate_key s t uid uname now = (False, s) \<and> delete_key s t = (False, s))"
proof -
  from assms have u: "upper (strip text) = tok"
    by (simp add: upper_of_differs upper_key_format)
  have "process_key_input s text uid uname full_name now =
      (if activated_by kd = None \<and> \<not> dict_in (str_int uid) (users s)
       then (KeyActivated,
             s\<lparr>keys := AList.update tok
                   (kd\<lparr>activated_by := Some uid,
                       activated_by_username := Some (display_name uname full_name),
                       activated_at := Some now\<rparr>) (keys s),
               users := AList.update (str_int uid)
                   \<lparr>user_id = uid, username = Some (display_name uname full_name),
                    key_used = tok, user_activated_at = now\<rparr> (users s)\<rparr>)
       else (KeyRejected, s))"
    using assms(1) by (simp add: process_key_input_def u activate_key_def)
  moreover have "map_of (keys s) t = None \<longrightarrow>
      activate_key s t uid uname now = (False, s) \<and> delete_key s t = (False, s)"
    by (simp add: activate_key_def delete_key_def)
  ultimately show ?thesis by blast
qed

theorem process_key_input_ignores_case_witness:
  "key_format ''AB12-CD34-EF56''
   \<and> differs_only_in_case (strip ''  ab12-cd34-Ef56 '') ''AB12-CD34-EF56''
   \<and> process_key_input store_two_keys ''  ab12-cd34-Ef56 '' 42 (Some ''bob'') ''Bob B''
        ''2025-02-01T00:00:00''
      = (KeyActivated,
         \<lparr>admin_id = 1034877346,
          keys = [(''AB12-CD34-EF56'',
                   \<lparr>created_at = ''2025-01-01T10:00:00'', activated_by = Some 42,
                    activated_by_username = Some ''@bob'',
                    activated_at = Some ''2025-02-01T00:00:00''\<rparr>),
                  (''ZZZZ-0000-YYYY'', new_key_data ''2025-01-02T10:00:00'')],
          users = [(''42'',
                    \<lparr>user_id = 42, username = Some ''@bob'', key_used = ''AB12-CD34-EF56'',
                     user_activated_at = ''2025-02-01T00:00:00''\<rparr>)]\<rparr>)
   \<and> delete_key store_two_keys ''ab12-cd34-Ef56'' = (False, store_two_keys)"
proof -
  have k: "map_of (keys store_two_keys) ''AB12-CD34-EF56''
             = Some (new_key_data ''2025-01-01T10:00:00'')"
    by (simp add: store_two_keys_def)
  have f: "key_format ''AB12-CD34-EF56''"
    by (simp add: key_format_def is_group_def is_upper_or_digit_def less_eq_char_def)
  have d: "differs_only_in_case (strip ''  ab12-cd34-Ef56 '') ''AB12-CD34-EF56''"
    by (simp add: differs_only_in_case_def strip_def isspace_def upper_char_def)
  have n: "map_of (keys store_two_keys) ''ab12-cd34-Ef56'' = None"
    by (simp add: store_two_keys_def)
  from process_key_input_ignores_case [OF k f d, of 42 "Some ''bob''" "''Bob B''"
      "''2025-02-01T00:00:00''" "''ab12-cd34-Ef56''"] n f d
  show ?thesis
    by (simp add: store_two_keys_def new_key_data_def dict_in_def display_name_def
        str_int_def str_nat.simps digit_char_def)
qed

text \<open>
  C4.  The parser returns the empty list for a payload that is no list and wraps none
  (\<open>parse_homeworks_not_list\<close>), and it skips an element that is no dict
  (\<open>parse_homework_skips\<close>), whose text trims to empty, or whose date string is refused
  by \<^verbatim>\<open>date.fromisoformat\<close> with \<^verbatim>\<open>ValueError\<close>.  It does raise, though: the date
  is parsed under \<^verbatim>\<open>except ValueError\<close> only, and \<^verbatim>\<open>date.fromisoformat\<close> raises
  \<^verbatim>\<open>TypeError\<close> on a value that is not a string.  An element with \<^verbatim>\<open>"date": null\<close>
  next to a valid element makes the whole call fail, whatever the library does on
  strings.
\<close>

theorem parse_homeworks_null_date:
  "parse_homeworks lib
     (JArray [JObject [(''homework'', JString ''Read ch.5''), (''date'', JString ''2025-12-15''),
                       (''subject_name'', JString ''Math'')],
              JObject [(''homework'', JString ''Essay''), (''date'', JNull)]])
   = Inl TypeError"
proof -
  have s: "strip ''Essay'' = ''Essay''" "strip ''Read ch.5'' = ''Read ch.5''"
    by (simp_all add: strip_def isspace_def)
  have 2: "parse_homework lib (JObject [(''homework'', JString ''Essay''), (''date'', JNull)])
      = Inl TypeError"
    by (simp add: parse_homework_def dict_get_def get_default_def py_or_def str_json_def s
        Let_def)
  have 1: "\<exists>r. parse_homework lib
      (JObject [(''homework'', JString ''Read ch.5''), (''date'', JString ''2025-12-15''),
                (''subject_name'', JString ''Math'')]) = Inr r"
    by (simp add: parse_homework_def dict_get_def get_default_def py_or_def str_json_def s
        Let_def split: option.splits)
  from 1 2 show ?thesis
    by (auto simp: parse_homeworks_def unwrap_def)
qed

text \<open>
  C3.  \<^verbatim>\<open>fetch_homeworks\<close> sends at most \<^verbatim>\<open>max_retries\<close> requests, whatever the
  server does.  After \<open>k\<close> attempts that failed with network errors: if \<open>k\<close> is
  \<^verbatim>\<open>max_retries\<close> the call raises the error of the failed connection, whose message
  holds the last network error; otherwise attempt \<open>k\<close> is made, and any outcome of it
  that is no network error ends the call with no further request; a response with a
  status below 400 gives the result of the parser on its body.  Before that, every
  failed attempt \<open>i\<close> was followed by a wait of \<open>2 ^ i\<close> seconds; after the last
  allowed attempt there is no wait.  (The default of \<^verbatim>\<open>max_retries\<close> is 3, the value of
  the witness.)
\<close>

theorem fetch_homeworks_retry:
  assumes "\<forall>i<k. server i = NetFail (e i)" "k \<le> nat max_retries"
  shows "length (requests_of (snd (fetch_homeworks lib any_server max_retries)))
           \<le> nat max_retries
    \<and> (k = nat max_retries \<longrightarrow>
         fetch_homeworks lib server max_retries =
           (Inl (AutheduAPIError
                   (ConnectFailed max_retries (if k = 0 then None else Some (e (k - 1))))
                   None),
            failed_attempts max_retries 0 k))
    \<and> (k < nat max_retries \<longrightarrow>
         (\<forall>status body. server k = Response status body \<and> status < 400 \<longrightarrow>
            fetch_homeworks lib server max_retries =
              ((case body of None \<Rightarrow> Inl JSONDecodeError
                | Some data \<Rightarrow> parse_homeworks lib data),
               failed_attempts max_retries 0 k @ [Request k]))
         \<and> (\<forall>msg. server k = Raises msg \<longrightarrow>
            fetch_homeworks lib server max_retries =
              (Inl (OtherException msg), failed_attempts max_retries 0 k @ [Request k]))
         \<and> failed_attempts max_retries 0 k =
             concat (map (\<lambda>i. [Request i, Sleep (2 ^ i)]) [0..<k]))
    \<and> (k = nat max_retries \<and> 0 < k \<longrightarrow>
         failed_attempts max_retries 0 k =
           concat (map (\<lambda>i. [Request i, Sleep (2 ^ i)]) [0..<k - 1]) @ [Request (k - 1)])
    \<and> (k < nat max_retries \<and> (\<forall>err. server k \<noteq> NetFail err) \<longrightarrow>
         snd (fetch_homeworks lib server max_retries) =
           failed_attempts max_retries 0 k @ [Request k])"
proof (intro conjI impI allI)
  show "length (requests_of (snd (fetch_homeworks lib any_server max_retries)))
           \<le> nat max_retries"
    using fetch_loop_requests_bound[of lib any_server max_retries "[0..<nat max_retries]" None "[]"]
    by (simp add: fetch_homeworks_def requests_of_def)
next
  assume "k = nat max_retries"
  then show "fetch_homeworks lib server max_retries =
           (Inl (AutheduAPIError
                   (ConnectFailed max_retries (if k = 0 then None else Some (e (k - 1))))
                   None),
            failed_attempts max_retries 0 k)"
    using fetch_homeworks_prefix[OF assms, of lib] by simp
next
  fix status body
  assume "k < nat max_retries" "server k = Response status body \<and> status < 400"
  then show "fetch_homeworks lib server max_retries =
              ((case body of None \<Rightarrow> Inl JSONDecodeError
                | Some data \<Rightarrow> parse_homeworks lib data),
               failed_attempts max_retries 0 k @ [Request k])"
    by (simp add: fetch_homeworks_at[OF assms(1)] split: option.splits)
next
  fix msg
  assume "k < nat max_retries" "server k = Raises msg"
  then show "fetch_homeworks lib server max_retries =
              (Inl (OtherException msg), failed_attempts max_retries 0 k @ [Request k])"
    by (simp add: fetch_homeworks_at[OF assms(1)])
next
  assume "k < nat max_retries"
  then have "int k \<le> max_retries - 1" by linarith
  then show "failed_attempts max_retries 0 k =
             concat (map (\<lambda>i. [Request i, Sleep (2 ^ i)]) [0..<k])"
    by (rule failed_attempts_sleeps)
next
  assume a: "k = nat max_retries \<and> 0 < k"
  then obtain j where j: "k = Suc j" using gr0_implies_Suc by blast
  with a have le: "int j \<le> max_retries - 1" and nl: "\<not> int j < max_retries - 1"
    by linarith+
  have "failed_attempts max_retries 0 (Suc j) =
      failed_attempts max_retries 0 j @ [Request j]"
    using nl by (simp add: failed_attempts_Suc)
  with failed_attempts_sleeps[OF le, of 0] j
  show "failed_attempts max_retries 0 k =
           concat (map (\<lambda>i. [Request i, Sleep (2 ^ i)]) [0..<k - 1]) @ [Request (k - 1)]"
    by simp
next
  assume "k < nat max_retries \<and> (\<forall>err. server k \<noteq> NetFail err)"
  then show "snd (fetch_homeworks lib server max_retries) =
           failed_attempts max_retries 0 k @ [Request k]"
    using fetch_homeworks_stops[OF assms(1), of max_retries lib] by simp
qed

theorem fetch_homeworks_retry_witness:
  "\<forall>f. fetch_homeworks \<lparr>py_str = f, fromisoformat = fromisoformat_ymd\<rparr> server_timeouts 3 =
      (Inl (AutheduAPIError
              (ConnectFailed 3 (Some (TimeoutException ''timed out''))) None),
       [Request 0, Sleep 1, Request 1, Sleep 2, Request 2])
   \<and> fetch_homeworks \<lparr>py_str = f, fromisoformat = fromisoformat_ymd\<rparr>
        server_timeout_then_ok 3 =
      (Inr [\<lparr>subject = JString ''Math'', homework_date = (2025, 12, 15),
             homework_text = ''Read ch.5'', is_done = JBool False, materials = []\<rparr>],
       [Request 0, Sleep 1, Request 1])"
proof
  fix f
  let ?lib = "\<lparr>py_str = f, fromisoformat = fromisoformat_ymd\<rparr>"
  have a: "fetch_homeworks ?lib server_timeouts 3 =
      (Inl (AutheduAPIError
              (ConnectFailed 3 (Some (TimeoutException ''timed out''))) None),
       [Request 0, Sleep 1, Request 1, Sleep 2, Request 2])"
    using fetch_homeworks_retry [of 3 server_timeouts "\<lambda>i. TimeoutException ''timed out''" 3
        ?lib server_timeouts]
    by (simp add: server_timeouts_def upt_rec)
  have b: "fetch_homeworks ?lib server_timeout_then_ok 3 =
      (Inr [\<lparr>subject = JString ''Math'', homework_date = (2025, 12, 15),
             homework_text = ''Read ch.5'', is_done = JBool False, materials = []\<rparr>],
       [Request 0, Sleep 1, Request 1])"
    using fetch_homeworks_retry [of 1 server_timeout_then_ok
        "\<lambda>i. TimeoutException ''timed out''" 3 ?lib server_timeout_then_ok]
    by (simp add: server_timeout_then_ok_def parse_payload_math)
  from a b show "fetch_homeworks ?lib server_timeouts 3 =
      (Inl (AutheduAPIError
              (ConnectFailed 3 (Some (TimeoutException ''timed out''))) None),
       [Request 0, Sleep 1, Request 1, Sleep 2, Request 2])
   \<and> fetch_homeworks ?lib server_timeout_then_ok 3 =
      (Inr [\<lparr>subject = JString ''Math'', homework_date = (2025, 12, 15),
             homework_text = ''Read ch.5'', is_done = JBool False, materials = []\<rparr>],
       [Request 0, Sleep 1, Request 1])"
    by simp
qed

text \<open>
  C5.  When the request of an attempt (reached after network failures only) is answered
  with a status of 400 or more, \<^verbatim>\<open>fetch_homeworks\<close> raises at once and sends no
  further request: for 401 the error of the expired or wrong token, for 403 the error of
  the forbidden access, for every other such status the general API error; each carries
  the status code.
\<close>

theorem fetch_homeworks_http_error:
  assumes "\<forall>i<k. server i = NetFail (e i)" "k < nat max_retries"
    "server k = Response status body" "status \<ge> 400"
  shows "fetch_homeworks lib server max_retries =
      (Inl (AutheduAPIError
              (if status = 401 then TokenExpired401
               else if status = 403 then Forbidden403 else HttpError status)
              (Some status)),
       failed_attempts max_retries 0 k @ [Request k])
    \<and> requests_of (snd (fetch_homeworks lib server max_retries)) = [0..<k] @ [k]"
  using assms(3,4)
  by (simp add: fetch_homeworks_at[OF assms(1,2)] requests_of_append
      requests_of_failed_attempts) (simp add: requests_of_def)

theorem fetch_homeworks_http_error_witness:
  "\<forall>lib. fetch_homeworks lib server_401 3 =
      (Inl (AutheduAPIError TokenExpired401 (Some 401)), [Request 0])
   \<and> fetch_homeworks lib server_timeout_then_500 3 =
      (Inl (AutheduAPIError (HttpError 500) (Some 500)), [Request 0, Sleep 1, Request 1])"
proof
  fix lib :: pylib
  have a: "fetch_homeworks lib server_401 3 =
      (Inl (AutheduAPIError TokenExpired401 (Some 401)), [Request 0])"
    using fetch_homeworks_http_error [of 0 server_401 "\<lambda>i. TimeoutException []" 3 401 None lib]
    by (simp add: server_401_def failed_attempts_def)
  have b: "fetch_homeworks lib server_timeout_then_500 3 =
      (Inl (AutheduAPIError (HttpError 500) (Some 500)), [Request 0, Sleep 1, Request 1])"
    using fetch_homeworks_http_error [of 1 server_timeout_then_500
        "\<lambda>i. TimeoutException ''timed out''" 3 500 None lib]
    by (simp add: server_timeout_then_500_def failed_attempts_def)
  from a b show "fetch_homeworks lib server_401 3 =
      (Inl (AutheduAPIError TokenExpired401 (Some 401)), [Request 0])
   \<and> fetch_homeworks lib server_timeout_then_500 3 =
      (Inl (AutheduAPIError (HttpError 500) (Some 500)), [Request 0, Sleep 1, Request 1])"
    by simp
qed

end
